theory Spec2Isabelle
  imports Main "HOL-Library.List_Lexorder" "HOL-Library.Char_ord" "HOL-Library.Multiset"
begin

section \<open>Data model\<close>

text \<open>
  The relay of \<^verbatim>\<open>server.ts\<close>: two SQLite tables (\<^verbatim>\<open>users\<close>, \<^verbatim>\<open>messages\<close>), the
  process-wide \<^verbatim>\<open>clients\<close> map from user id to WebSocket, and per connection the closure
  variable \<^verbatim>\<open>userId\<close> of the \<^verbatim>\<open>wss.on('connection')\<close> callback.

  Identifiers are JavaScript numbers holding SQLite integers; they are \<open>int\<close> here.
  A timestamp is the text the code handles: \<^verbatim>\<open>CURRENT_TIMESTAMP\<close> in a row,
  \<^verbatim>\<open>new Date().toISOString()\<close> in a pushed frame. Text is ordered bytewise, as SQLite's
  default collation orders it.
\<close>

datatype error = SyntaxError | TypeError | SQLITE_FULL | SQLITE_CONSTRAINT

text \<open>
  \<^verbatim>\<open>interface Message\<close> of \<^verbatim>\<open>types.ts\<close>, used both for a row of \<^verbatim>\<open>messages\<close> and for the
  object \<^verbatim>\<open>savedMsg\<close> of a pushed frame. \<^verbatim>\<open>receiver_id\<close> and \<^verbatim>\<open>content\<close> have no
  \<^verbatim>\<open>NOT NULL\<close> constraint: \<open>None\<close> is SQL \<^verbatim>\<open>NULL\<close> in a row and a missing property in a
  frame.
\<close>

record message =
  id' :: int
  sender_id :: int
  receiver_id :: "int option"
  content :: "string option"
  timestamp :: string

text \<open>A row of \<^verbatim>\<open>users\<close>; the password hash and the avatar play no role in the relay.\<close>

record user =
  uid :: int
  username :: string

text \<open>
  The database file. \<open>messages\<close> lists the rows in rowid order (the order of a table scan),
  \<open>seq\<close> and \<open>user_seq\<close> are the \<^verbatim>\<open>sqlite_sequence\<close> counters of the two
  \<^verbatim>\<open>AUTOINCREMENT\<close> keys. Whether the two \<^verbatim>\<open>FOREIGN KEY\<close> clauses are enforced is a setting of
  the database connection that \<^verbatim>\<open>server.ts\<close> leaves at the driver's default; it is the flag
  \<open>foreign_keys\<close>.
\<close>

record database =
  users :: "user list"
  user_seq :: int
  messages :: "message list"
  seq :: int
  foreign_keys :: bool

definition MAX_ROWID :: int where
  "MAX_ROWID = 9223372036854775807"

definition empty_store :: "bool \<Rightarrow> database" where
  "empty_store fk = \<lparr>users = [], user_seq = 0, messages = [], seq = 0, foreign_keys = fk\<rparr>"

section \<open>Message store\<close>

text \<open>
  \<^verbatim>\<open>INSERT INTO users (username, password, avatar) VALUES (?, ?, ?)\<close> of \<^verbatim>\<open>/api/signup\<close>:
  \<^verbatim>\<open>username\<close> is \<^verbatim>\<open>UNIQUE\<close>, the key is \<^verbatim>\<open>AUTOINCREMENT\<close>.
\<close>

definition insert_user :: "database \<Rightarrow> string \<Rightarrow> error + database \<times> int" where
  "insert_user d name =
     (if MAX_ROWID \<le> user_seq d then Inl SQLITE_FULL
      else if name \<in> username ` set (users d) then Inl SQLITE_CONSTRAINT
      else let k = user_seq d + 1
           in Inr (d\<lparr>users := users d @ [\<lparr>uid = k, username = name\<rparr>], user_seq := k\<rparr>, k))"

text \<open>
  \<^verbatim>\<open>INSERT INTO messages (sender_id, receiver_id, content) VALUES (?, ?, ?)\<close>, run with
  \<^verbatim>\<open>(userId, receiverId, content)\<close>. The key is one more than the largest key the table ever
  held, and the insert fails once that key was the largest rowid; \<^verbatim>\<open>timestamp\<close> takes its
  default, the database clock's reading \<open>now\<close>. With the foreign keys enforced a sender or a
  non-\<^verbatim>\<open>NULL\<close> receiver that is no key of \<^verbatim>\<open>users\<close> fails the statement. A failed statement
  changes nothing and throws out of \<^verbatim>\<open>run\<close>. The result carries \<^verbatim>\<open>info.lastInsertRowid\<close>.
  A parameter that is \<^verbatim>\<open>undefined\<close> or \<^verbatim>\<open>null\<close> (\<open>None\<close>) is bound as \<^verbatim>\<open>NULL\<close>; the foreign key
  of a \<^verbatim>\<open>NULL\<close> receiver is not checked.
\<close>

definition insert_message ::
  "database \<Rightarrow> int \<Rightarrow> int option \<Rightarrow> string option \<Rightarrow> string \<Rightarrow> error + database \<times> int" where
  "insert_message d s r c now =
     (if MAX_ROWID \<le> seq d then Inl SQLITE_FULL
      else if foreign_keys d \<and>
              (s \<notin> uid ` set (users d) \<or> (case r of None \<Rightarrow> False | Some k \<Rightarrow> k \<notin> uid ` set (users d)))
      then Inl SQLITE_CONSTRAINT
      else let k = seq d + 1
           in Inr (d\<lparr>messages := messages d @
                       [\<lparr>id' = k, sender_id = s, receiver_id = r, content = c, timestamp = now\<rparr>],
                     seq := k\<rparr>, k))"

text \<open>
  The query of \<^verbatim>\<open>GET /api/messages/:otherId\<close>:
  \<^verbatim>\<open>SELECT * FROM messages WHERE (sender_id = ? AND receiver_id = ?) OR (sender_id = ? AND receiver_id = ?) ORDER BY timestamp ASC\<close>
  with the parameters \<^verbatim>\<open>(a, b, b, a)\<close>. A \<^verbatim>\<open>NULL\<close> receiver equals nothing. The table has no
  index but its rowid, so the rows are scanned in rowid order and then sorted on the one key
  \<^verbatim>\<open>timestamp\<close>; the sort keeps rows of equal key in scan order (\<open>sort_key\<close> is such a sort).
\<close>

definition history :: "database \<Rightarrow> int \<Rightarrow> int \<Rightarrow> message list" where
  "history d a b =
     sort_key timestamp
       (filter (\<lambda>m. (sender_id m = a \<and> receiver_id m = Some b) \<or>
                     (sender_id m = b \<and> receiver_id m = Some a)) (messages d))"

text \<open>
  The route itself. \<open>tok\<close> is the second word of the \<^verbatim>\<open>Authorization\<close> header, if any;
  \<open>verify\<close> is \<^verbatim>\<open>jwt.verify(_, JWT_SECRET)\<close> followed by \<^verbatim>\<open>.id\<close>, \<open>None\<close> where it throws;
  \<open>other\<close> is the integer the URL segment \<^verbatim>\<open>:otherId\<close> denotes when compared with the
  integer columns, \<open>None\<close> when it denotes none (then no row matches).
\<close>

datatype response = Status401 string | Json200 "message list"

definition get_messages ::
  "(string \<Rightarrow> int option) \<Rightarrow> database \<Rightarrow> string option \<Rightarrow> int option \<Rightarrow> response" where
  "get_messages verify d tok other =
     (case tok of
        None \<Rightarrow> Status401 ''Unauthorized''
      | Some t \<Rightarrow>
          (case verify t of
             None \<Rightarrow> Status401 ''Invalid token''
           | Some a \<Rightarrow> Json200 (case other of None \<Rightarrow> [] | Some b \<Rightarrow> history d a b)))"

text \<open>
  The lifetime of the store: signups and sends in any order, from the empty tables that
  \<^verbatim>\<open>CREATE TABLE IF NOT EXISTS\<close> leaves. A statement that fails leaves the store as it was.
\<close>

datatype store_op = Signup string | Append int "int option" "string option" string

fun apply_store_op :: "database \<Rightarrow> store_op \<Rightarrow> database" where
  "apply_store_op d (Signup name) =
     (case insert_user d name of Inl e \<Rightarrow> d | Inr (d', k) \<Rightarrow> d')"
| "apply_store_op d (Append s r c now) =
     (case insert_message d s r c now of Inl e \<Rightarrow> d | Inr (d', k) \<Rightarrow> d')"

definition run_store :: "bool \<Rightarrow> store_op list \<Rightarrow> database" where
  "run_store fk ops = foldl apply_store_op (empty_store fk) ops"

section \<open>Connections, registry and the session handlers\<close>

type_synonym conn = nat

datatype ready_state = CONNECTING | OPEN | CLOSING | CLOSED

text \<open>
  One accepted WebSocket \<^verbatim>\<open>ws\<close> with the closure variable \<^verbatim>\<open>userId\<close> of its callbacks.
  \<open>sent\<close> collects the \<^verbatim>\<open>savedMsg\<close> of every frame \<^verbatim>\<open>{type: 'message', message: savedMsg}\<close>
  written to it, oldest first.
\<close>

record socket =
  userId :: "int option"
  readyState :: ready_state
  sent :: "message list"

record server =
  clients :: "int \<rightharpoonup> conn"
  db :: database
  socks :: "conn \<Rightarrow> socket"

definition init_server :: "database \<Rightarrow> server" where
  "init_server d =
     \<lparr>clients = Map.empty, db = d,
      socks = (\<lambda>c. \<lparr>userId = None, readyState = CLOSED, sent = []\<rparr>)\<rparr>"

text \<open>The truth value of \<^verbatim>\<open>userId\<close> in \<^verbatim>\<open>if (userId)\<close>: \<^verbatim>\<open>null\<close> and \<^verbatim>\<open>0\<close> are false.\<close>

fun truthy :: "int option \<Rightarrow> bool" where
  "truthy None = False"
| "truthy (Some n) = (n \<noteq> 0)"

text \<open>
  What \<^verbatim>\<open>JSON.parse(data.toString())\<close> makes of the transport data: it throws on text that
  is not JSON; \<^verbatim>\<open>null\<close> is JSON; an object is kept with the four properties the handler
  reads, in the order \<^verbatim>\<open>type\<close>, \<^verbatim>\<open>token\<close>, \<^verbatim>\<open>receiverId\<close>, \<^verbatim>\<open>content\<close>, each \<open>None\<close> when
  missing or \<^verbatim>\<open>null\<close> and otherwise of the type the protocol gives it (string, string,
  integer, string); any other JSON value has no property \<^verbatim>\<open>type\<close>.
\<close>

datatype json = JNull | JOther | JObject "string option" "string option" "int option" "string option"

datatype data = NotJSON | JSON json

fun JSON_parse :: "data \<Rightarrow> error + json" where
  "JSON_parse NotJSON = Inl SyntaxError"
| "JSON_parse (JSON j) = Inr j"

text \<open>
  \<^verbatim>\<open>ws.send\<close> writes the frame when the socket is open and otherwise delivers nothing;
  \<^verbatim>\<open>ws.close()\<close> starts the closing handshake of an open socket.
\<close>

definition ws_send :: "server \<Rightarrow> conn \<Rightarrow> message \<Rightarrow> server" where
  "ws_send s c m =
     (if readyState (socks s c) = OPEN
      then s\<lparr>socks := (socks s)(c := (socks s c)\<lparr>sent := sent (socks s c) @ [m]\<rparr>)\<rparr>
      else s)"

definition ws_close :: "server \<Rightarrow> conn \<Rightarrow> server" where
  "ws_close s c =
     (if readyState (socks s c) = OPEN \<or> readyState (socks s c) = CONNECTING
      then s\<lparr>socks := (socks s)(c := (socks s c)\<lparr>readyState := CLOSING\<rparr>)\<rparr>
      else s)"

text \<open>\<^verbatim>\<open>wss.on('connection')\<close>: a fresh open socket with \<^verbatim>\<open>userId = null\<close>.\<close>

definition on_connection :: "server \<Rightarrow> conn \<Rightarrow> server" where
  "on_connection s c =
     s\<lparr>socks := (socks s)(c := \<lparr>userId = None, readyState = OPEN, sent = []\<rparr>)\<rparr>"

text \<open>
  \<^verbatim>\<open>info.lastInsertRowid\<close> reaches JavaScript as a number: the 64-bit key converted to a
  double, which is exact up to \<open>2^53\<close> in magnitude and beyond that the nearest double, the
  one with the even mantissa on a tie. \<open>ulp k\<close> is the spacing of the doubles around
  \<open>k \<ge> 0\<close>; \<open>9007199254740992\<close> is \<open>2^53\<close>.
\<close>

function ulp :: "int \<Rightarrow> int" where
  "ulp k = (if k < 9007199254740992 then 1 else 2 * ulp (k div 2))"
  by pat_completeness auto
termination
  by (relation "measure nat") auto

declare ulp.simps [simp del]

definition to_double :: "int \<Rightarrow> int" where
  "to_double k =
     (if \<bar>k\<bar> < 9007199254740992 then k
      else let u = ulp \<bar>k\<bar>; q = \<bar>k\<bar> div u; r = \<bar>k\<bar> mod u
           in sgn k * (if 2 * r < u \<or> (2 * r = u \<and> even q) then q * u else (q + 1) * u))"

text \<open>
  The body of \<^verbatim>\<open>ws.on('message')\<close> after the parse. \<open>db_now\<close> is the reading of the
  database clock during the insert, \<open>js_now\<close> what \<^verbatim>\<open>new Date().toISOString()\<close> returns
  after it. \<^verbatim>\<open>savedMsg.id\<close> is \<^verbatim>\<open>info.lastInsertRowid\<close>, the key as a JavaScript number. \<open>Inl\<close> is an exception that leaves the handler uncaught; every one of them is
  thrown before the handler has changed anything.
\<close>

fun handle ::
  "(string \<Rightarrow> int option) \<Rightarrow> server \<Rightarrow> conn \<Rightarrow> json \<Rightarrow> string \<Rightarrow> string \<Rightarrow> error + server" where
  "handle verify s c JNull db_now js_now = Inl TypeError"
| "handle verify s c JOther db_now js_now = Inr s"
| "handle verify s c (JObject ty tok receiverId cont) db_now js_now =
     (if ty = Some ''auth'' then
        (case (case tok of None \<Rightarrow> None | Some t \<Rightarrow> verify t) of
           None \<Rightarrow> Inr (ws_close s c)
         | Some k \<Rightarrow>
             (let s1 = s\<lparr>socks := (socks s)(c := (socks s c)\<lparr>userId := Some k\<rparr>)\<rparr>
              in Inr (if truthy (Some k) then s1\<lparr>clients := (clients s1)(k \<mapsto> c)\<rparr> else s1)))
      else if ty = Some ''message'' \<and> truthy (userId (socks s c)) then
        (case insert_message (db s) (the (userId (socks s c))) receiverId cont db_now of
           Inl e \<Rightarrow> Inl e
         | Inr (d', k) \<Rightarrow>
             (let savedMsg = \<lparr>id' = to_double k, sender_id = the (userId (socks s c)),
                              receiver_id = receiverId, content = cont, timestamp = js_now\<rparr>;
                  s1 = s\<lparr>db := d'\<rparr>;
                  s2 = (case (case receiverId of None \<Rightarrow> None | Some r \<Rightarrow> clients s1 r) of
                          None \<Rightarrow> s1
                        | Some receiverWs \<Rightarrow>
                            if readyState (socks s1 receiverWs) = OPEN
                            then ws_send s1 receiverWs savedMsg else s1)
              in Inr (ws_send s2 c savedMsg)))
      else Inr s)"

definition on_message ::
  "(string \<Rightarrow> int option) \<Rightarrow> server \<Rightarrow> conn \<Rightarrow> data \<Rightarrow> string \<Rightarrow> string \<Rightarrow> error + server" where
  "on_message verify s c d db_now js_now =
     (case JSON_parse d of
        Inl e \<Rightarrow> Inl e
      | Inr m \<Rightarrow> handle verify s c m db_now js_now)"

text \<open>
  \<^verbatim>\<open>ws.on('close')\<close>: the transport is closed, and
  \<^verbatim>\<open>if (userId) clients.delete(userId)\<close>.
\<close>

definition on_close :: "server \<Rightarrow> conn \<Rightarrow> server" where
  "on_close s c =
     (let s1 = s\<lparr>socks := (socks s)(c := (socks s c)\<lparr>readyState := CLOSED\<rparr>)\<rparr>
      in if truthy (userId (socks s c))
         then s1\<lparr>clients := (clients s1)(the (userId (socks s c)) := None)\<rparr>
         else s1)"

text \<open>
  The events of one server process, handled one at a time; the run ends at the first
  exception no handler catches.
\<close>

datatype event = Connection conn | Message conn data string string | Close conn

fun step :: "(string \<Rightarrow> int option) \<Rightarrow> server \<Rightarrow> event \<Rightarrow> error + server" where
  "step verify s (Connection c) = Inr (on_connection s c)"
| "step verify s (Message c d db_now js_now) = on_message verify s c d db_now js_now"
| "step verify s (Close c) = Inr (on_close s c)"

fun run :: "(string \<Rightarrow> int option) \<Rightarrow> server \<Rightarrow> event list \<Rightarrow> error + server" where
  "run verify s [] = Inr s"
| "run verify s (e # es) =
     (case step verify s e of Inl x \<Rightarrow> Inl x | Inr s' \<Rightarrow> run verify s' es)"

section \<open>Predicates used in the proofs\<close>

text \<open>
  The invariant of the \<^verbatim>\<open>messages\<close> table: the keys strictly increase along the rows and
  none exceeds the sequence counter.
\<close>

definition store_inv :: "database \<Rightarrow> bool" where
  "store_inv d \<longleftrightarrow>
     sorted_wrt (<) (map id' (messages d)) \<and> list_all (\<lambda>m. id' m \<le> seq d) (messages d)"

text \<open>The invariant of the \<^verbatim>\<open>users\<close> table: every key is positive and at most the counter.\<close>

definition users_inv :: "database \<Rightarrow> bool" where
  "users_inv d \<longleftrightarrow> list_all (\<lambda>x. 0 < uid x \<and> uid x \<le> user_seq d) (users d) \<and> 0 \<le> user_seq d"

text \<open>Earlier timestamp first, and among equal timestamps the smaller key first.\<close>

definition before :: "message \<Rightarrow> message \<Rightarrow> bool" where
  "before x y \<longleftrightarrow> timestamp x < timestamp y \<or> (timestamp x = timestamp y \<and> id' x < id' y)"

section \<open>The message store: keys and history\<close>

lemma insert_message_result:
  assumes "insert_message d s r c now = Inr (d', k)"
  shows "k = seq d + 1" and "seq d' = k"
    and "messages d' = messages d @
           [\<lparr>id' = k, sender_id = s, receiver_id = r, content = c, timestamp = now\<rparr>]"
    and "users d' = users d" and "foreign_keys d' = foreign_keys d"
    and "user_seq d' = user_seq d"
  using assms by (auto simp: insert_message_def Let_def split: if_splits)

lemma insert_user_result:
  assumes "insert_user d name = Inr (d', k)"
  shows "messages d' = messages d" and "seq d' = seq d"
    and "k = user_seq d + 1" and "user_seq d' = k"
    and "users d' = users d @ [\<lparr>uid = k, username = name\<rparr>]"
  using assms by (auto simp: insert_user_def Let_def split: if_splits)

lemma store_inv_empty: "store_inv (empty_store fk)"
  by (simp add: store_inv_def empty_store_def)

lemma store_inv_insert_message:
  assumes "store_inv d" and "insert_message d s r c now = Inr (d', k)"
  shows "store_inv d'"
proof -
  note r = insert_message_result [OF assms(2)]
  from assms(1) have srt: "sorted_wrt (<) (map id' (messages d))"
    and bnd: "\<forall>m \<in> set (messages d). id' m \<le> seq d"
    by (simp_all add: store_inv_def list_all_iff)
  have "sorted_wrt (<) (map id' (messages d'))"
    using srt bnd by (auto simp: r(1,3) sorted_wrt_append)
  moreover have "\<forall>m \<in> set (messages d'). id' m \<le> seq d'"
    using bnd by (auto simp: r(1,2,3))
  ultimately show ?thesis by (simp add: store_inv_def list_all_iff)
qed

lemma store_inv_apply:
  assumes "store_inv d"
  shows "store_inv (apply_store_op d x)"
proof (cases x)
  case (Signup name)
  show ?thesis
  proof (cases "insert_user d name")
    case (Inl e)
    then show ?thesis using assms Signup by simp
  next
    case (Inr p)
    obtain d' k where p: "p = (d', k)" by (cases p)
    note r = insert_user_result [OF Inr [unfolded p]]
    show ?thesis using assms Signup Inr p by (simp add: store_inv_def r(1,2))
  qed
next
  case (Append s r c now)
  then show ?thesis using assms
    by (auto split: sum.splits dest: store_inv_insert_message)
qed

lemma store_inv_foldl: "store_inv d \<Longrightarrow> store_inv (foldl apply_store_op d ops)"
  by (induction ops arbitrary: d) (simp_all add: store_inv_apply)

lemma store_inv_run_store: "store_inv (run_store fk ops)"
  by (simp add: run_store_def store_inv_foldl store_inv_empty)

lemma users_inv_apply:
  assumes "users_inv d"
  shows "users_inv (apply_store_op d x)"
proof (cases x)
  case (Signup name)
  show ?thesis
  proof (cases "insert_user d name")
    case (Inl e)
    then show ?thesis using assms Signup by simp
  next
    case (Inr p)
    obtain d' k where p: "p = (d', k)" by (cases p)
    note r = insert_user_result [OF Inr [unfolded p]]
    have "users_inv d'"
      using assms unfolding users_inv_def r(4,5) r(3) list_all_iff by auto
    then show ?thesis using Signup Inr p by simp
  qed
next
  case (Append s r c now)
  show ?thesis
  proof (cases "insert_message d s r c now")
    case (Inl e)
    then show ?thesis using assms Append by simp
  next
    case (Inr p)
    obtain d' k where p: "p = (d', k)" by (cases p)
    note r = insert_message_result [OF Inr [unfolded p]]
    show ?thesis using assms Append Inr p by (simp add: users_inv_def r(4,6))
  qed
qed

lemma users_inv_foldl: "users_inv d \<Longrightarrow> users_inv (foldl apply_store_op d ops)"
  by (induction ops arbitrary: d) (simp_all add: users_inv_apply)

lemma users_inv_empty: "users_inv (empty_store fk)"
  by (simp add: users_inv_def empty_store_def)

lemma users_inv_run_store: "users_inv (run_store fk ops)"
  unfolding run_store_def using users_inv_empty by (rule users_inv_foldl)

lemma user_key_nonzero:
  assumes "u \<in> uid ` set (users (run_store fk ops))"
  shows "u \<noteq> 0"
  using assms users_inv_run_store [of fk ops] by (auto simp: users_inv_def list_all_iff)

lemma insort_before:
  assumes "sorted_wrt before ys" and "\<forall>y \<in> set ys. id' x < id' y"
  shows "sorted_wrt before (insort_key timestamp x ys)"
  using assms
proof (induction ys)
  case Nil
  then show ?case by simp
next
  case (Cons y ys)
  show ?case
  proof (cases "timestamp x \<le> timestamp y")
    case True
    have "before x y" using True Cons.prems(2) by (auto simp: before_def)
    moreover have "\<forall>z \<in> set ys. before x z"
    proof
      fix z assume z: "z \<in> set ys"
      then have "before y z" using Cons.prems(1) by simp
      then have "timestamp x \<le> timestamp z" using True by (auto simp: before_def)
      then show "before x z" using Cons.prems(2) z by (auto simp: before_def)
    qed
    ultimately show ?thesis using True Cons.prems(1) by simp
  next
    case False
    then have "before y x" by (auto simp: before_def)
    then show ?thesis using False Cons by (auto simp: set_insort_key)
  qed
qed

lemma sort_key_before:
  "sorted_wrt (<) (map id' xs) \<Longrightarrow> sorted_wrt before (sort_key timestamp xs)"
proof (induction xs)
  case Nil
  then show ?case by simp
next
  case (Cons x xs)
  then show ?case by (auto intro!: insort_before)
qed

lemma before_distinct: "sorted_wrt before xs \<Longrightarrow> distinct xs"
  by (induction xs) (auto simp: before_def)

text \<open>
  C8. Over the lifetime of the store - any sequence of signups and sends from the empty
  tables - a send that succeeds is given a key greater than the key of every message
  appended before it, it is appended as the last row, and the keys of the table strictly
  increase in the order of appending.
\<close>

theorem append_ids_strictly_increasing:
  assumes "insert_message (run_store fk ops) s r c now = Inr (d', k)"
  shows "(\<forall>m \<in> set (messages (run_store fk ops)). id' m < k) \<and>
         messages d' = messages (run_store fk ops) @
           [\<lparr>id' = k, sender_id = s, receiver_id = r, content = c, timestamp = now\<rparr>] \<and>
         sorted_wrt (<) (map id' (messages d'))"
proof -
  note r = insert_message_result [OF assms]
  have inv: "store_inv (run_store fk ops)" by (rule store_inv_run_store)
  have "store_inv d'" using inv assms by (rule store_inv_insert_message)
  then show ?thesis using inv r(1,3) by (auto simp: store_inv_def list_all_iff)
qed

theorem append_ids_strictly_increasing_witness:
  "insert_message
     (run_store True [Signup ''alice'', Signup ''bob'',
        Append 1 (Some 2) (Some ''hi'') ''2024-01-01 10:00:07''])
     2 (Some 1) (Some ''yo'') ''2024-01-01 10:00:09'' =
   Inr (\<lparr>users = [\<lparr>uid = 1, username = ''alice''\<rparr>, \<lparr>uid = 2, username = ''bob''\<rparr>],
         user_seq = 2,
         messages =
           [\<lparr>id' = 1, sender_id = 1, receiver_id = Some 2, content = Some ''hi'',
              timestamp = ''2024-01-01 10:00:07''\<rparr>,
            \<lparr>id' = 2, sender_id = 2, receiver_id = Some 1, content = Some ''yo'',
              timestamp = ''2024-01-01 10:00:09''\<rparr>],
         seq = 2, foreign_keys = True\<rparr>, 2) \<and>
   map id' (messages (run_store True [Signup ''alice'', Signup ''bob'',
        Append 1 (Some 2) (Some ''hi'') ''2024-01-01 10:00:07''])) = [1]"
proof -
  have e: "insert_message
     (run_store True [Signup ''alice'', Signup ''bob'',
        Append 1 (Some 2) (Some ''hi'') ''2024-01-01 10:00:07''])
     2 (Some 1) (Some ''yo'') ''2024-01-01 10:00:09'' =
   Inr (\<lparr>users = [\<lparr>uid = 1, username = ''alice''\<rparr>, \<lparr>uid = 2, username = ''bob''\<rparr>],
         user_seq = 2,
         messages =
           [\<lparr>id' = 1, sender_id = 1, receiver_id = Some 2, content = Some ''hi'',
              timestamp = ''2024-01-01 10:00:07''\<rparr>,
            \<lparr>id' = 2, sender_id = 2, receiver_id = Some 1, content = Some ''yo'',
              timestamp = ''2024-01-01 10:00:09''\<rparr>],
         seq = 2, foreign_keys = True\<rparr>, 2)"
    by (simp add: run_store_def empty_store_def insert_user_def insert_message_def MAX_ROWID_def)
  show ?thesis
    using e append_ids_strictly_increasing [OF e]
    by (simp add: run_store_def empty_store_def insert_user_def insert_message_def MAX_ROWID_def)
qed

text \<open>
  C7. The history of a pair of users does not depend on the order of the pair: the query
  run for \<open>a\<close> with \<open>b\<close> returns the same list as the query run for \<open>b\<close> with \<open>a\<close>, and
  so do the two requests of the route, each authenticated by its own user's token.
\<close>

theorem history_symmetric:
  "history d a b = history d b a \<and>
   (verify ta = Some a \<longrightarrow> verify tb = Some b \<longrightarrow>
      get_messages verify d (Some ta) (Some b) = get_messages verify d (Some tb) (Some a))"
proof -
  have "filter (\<lambda>m. (sender_id m = a \<and> receiver_id m = Some b) \<or>
                     (sender_id m = b \<and> receiver_id m = Some a)) (messages d) =
        filter (\<lambda>m. (sender_id m = b \<and> receiver_id m = Some a) \<or>
                     (sender_id m = a \<and> receiver_id m = Some b)) (messages d)"
    by (rule filter_cong) auto
  then have "history d a b = history d b a"
    unfolding history_def by (rule arg_cong)
  then show ?thesis by (simp add: get_messages_def)
qed

theorem history_symmetric_witness:
  "history (run_store True [Signup ''alice'', Signup ''bob'',
      Append 1 (Some 2) (Some ''hi'') ''2024-01-01 10:00:07'',
      Append 2 (Some 1) (Some ''yo'') ''2024-01-01 10:00:05'']) 1 2 =
   [\<lparr>id' = 2, sender_id = 2, receiver_id = Some 1, content = Some ''yo'',
      timestamp = ''2024-01-01 10:00:05''\<rparr>,
    \<lparr>id' = 1, sender_id = 1, receiver_id = Some 2, content = Some ''hi'',
      timestamp = ''2024-01-01 10:00:07''\<rparr>] \<and>
   get_messages (\<lambda>t. if t = ''tokA'' then Some 1 else if t = ''tokB'' then Some 2 else None)
     (run_store True [Signup ''alice'', Signup ''bob'',
      Append 1 (Some 2) (Some ''hi'') ''2024-01-01 10:00:07'',
      Append 2 (Some 1) (Some ''yo'') ''2024-01-01 10:00:05'']) (Some ''tokB'') (Some 1) =
   Json200
   [\<lparr>id' = 2, sender_id = 2, receiver_id = Some 1, content = Some ''yo'',
      timestamp = ''2024-01-01 10:00:05''\<rparr>,
    \<lparr>id' = 1, sender_id = 1, receiver_id = Some 2, content = Some ''hi'',
      timestamp = ''2024-01-01 10:00:07''\<rparr>]"
proof -
  let ?v = "\<lambda>t. if t = ''tokA'' then Some 1 else if t = ''tokB'' then Some (2::int) else None"
  let ?d = "run_store True [Signup ''alice'', Signup ''bob'',
      Append 1 (Some 2) (Some ''hi'') ''2024-01-01 10:00:07'',
      Append 2 (Some 1) (Some ''yo'') ''2024-01-01 10:00:05'']"
  have h: "history ?d 1 2 =
   [\<lparr>id' = 2, sender_id = 2, receiver_id = Some 1, content = Some ''yo'',
      timestamp = ''2024-01-01 10:00:05''\<rparr>,
    \<lparr>id' = 1, sender_id = 1, receiver_id = Some 2, content = Some ''hi'',
      timestamp = ''2024-01-01 10:00:07''\<rparr>]"
    by (simp add: history_def run_store_def empty_store_def insert_user_def
        insert_message_def MAX_ROWID_def)
  have a: "?v ''tokA'' = Some 1" and b: "?v ''tokB'' = Some 2" by simp_all
  from history_symmetric [of ?d 1 2 ?v "''tokA''" "''tokB''"] a b
  have "get_messages ?v ?d (Some ''tokB'') (Some 1) = get_messages ?v ?d (Some ''tokA'') (Some 2)"
    by simp
  also have "\<dots> = Json200 (history ?d 1 2)"
    by (simp add: get_messages_def)
  finally show ?thesis using h by simp
qed

text \<open>
  C5. For a store in any state of its lifetime and users \<open>a\<close> and \<open>b\<close>, the history holds
  exactly the rows whose sender and receiver are \<open>a\<close> and \<open>b\<close> in either direction, each
  once, in ascending order of timestamp and, among equal timestamps, ascending order of key.
\<close>

theorem history_exact_and_ordered:
  "set (history (run_store fk ops) a b) =
     {m. m \<in> set (messages (run_store fk ops)) \<and>
         {Some (sender_id m), receiver_id m} = {Some a, Some b}} \<and>
   distinct (history (run_store fk ops) a b) \<and>
   sorted_wrt (\<lambda>x y. timestamp x < timestamp y \<or> (timestamp x = timestamp y \<and> id' x < id' y))
     (history (run_store fk ops) a b)"
proof -
  let ?d = "run_store fk ops"
  let ?P = "\<lambda>m. (sender_id m = a \<and> receiver_id m = Some b) \<or>
                 (sender_id m = b \<and> receiver_id m = Some a)"
  have P: "?P m \<longleftrightarrow> {Some (sender_id m), receiver_id m} = {Some a, Some b}" for m :: message
    by (auto simp: doubleton_eq_iff)
  have "sorted_wrt (<) (map id' (messages ?d))"
    using store_inv_run_store [of fk ops] by (simp add: store_inv_def)
  then have "sorted_wrt (<) (map id' (filter ?P (messages ?d)))"
    by (simp add: sorted_wrt_map sorted_wrt_filter)
  then have srt: "sorted_wrt before (history ?d a b)"
    unfolding history_def by (rule sort_key_before)
  have "distinct (history ?d a b)"
    using srt by (rule before_distinct)
  moreover have "set (history ?d a b) =
      {m. m \<in> set (messages ?d) \<and> {Some (sender_id m), receiver_id m} = {Some a, Some b}}"
    unfolding history_def by (auto simp: P)
  ultimately show ?thesis using srt by (simp add: before_def [abs_def])
qed

theorem history_exact_and_ordered_witness:
  "history (run_store True [Signup ''alice'', Signup ''bob'',
        Append 1 (Some 2) (Some ''hi'') ''2024-01-01 10:00:07'',
        Append 2 (Some 1) (Some ''yo'') ''2024-01-01 10:00:07'',
        Append 1 (Some 2) (Some ''late'') ''2024-01-01 10:00:05'',
        Append 1 (Some 1) (Some ''note'') ''2024-01-01 10:00:06'']) 1 2 =
     [\<lparr>id' = 3, sender_id = 1, receiver_id = Some 2, content = Some ''late'', timestamp = ''2024-01-01 10:00:05''\<rparr>,
      \<lparr>id' = 1, sender_id = 1, receiver_id = Some 2, content = Some ''hi'', timestamp = ''2024-01-01 10:00:07''\<rparr>,
      \<lparr>id' = 2, sender_id = 2, receiver_id = Some 1, content = Some ''yo'', timestamp = ''2024-01-01 10:00:07''\<rparr>] \<and>
   distinct (history (run_store True [Signup ''alice'', Signup ''bob'',
        Append 1 (Some 2) (Some ''hi'') ''2024-01-01 10:00:07'',
        Append 2 (Some 1) (Some ''yo'') ''2024-01-01 10:00:07'',
        Append 1 (Some 2) (Some ''late'') ''2024-01-01 10:00:05'',
        Append 1 (Some 1) (Some ''note'') ''2024-01-01 10:00:06'']) 1 2) \<and>
   sorted_wrt (\<lambda>x y. timestamp x < timestamp y \<or> (timestamp x = timestamp y \<and> id' x < id' y))
     (history (run_store True [Signup ''alice'', Signup ''bob'',
        Append 1 (Some 2) (Some ''hi'') ''2024-01-01 10:00:07'',
        Append 2 (Some 1) (Some ''yo'') ''2024-01-01 10:00:07'',
        Append 1 (Some 2) (Some ''late'') ''2024-01-01 10:00:05'',
        Append 1 (Some 1) (Some ''note'') ''2024-01-01 10:00:06'']) 1 2)"
proof -
  have "history (run_store True [Signup ''alice'', Signup ''bob'',
        Append 1 (Some 2) (Some ''hi'') ''2024-01-01 10:00:07'',
        Append 2 (Some 1) (Some ''yo'') ''2024-01-01 10:00:07'',
        Append 1 (Some 2) (Some ''late'') ''2024-01-01 10:00:05'',
        Append 1 (Some 1) (Some ''note'') ''2024-01-01 10:00:06'']) 1 2 =
     [\<lparr>id' = 3, sender_id = 1, receiver_id = Some 2, content = Some ''late'', timestamp = ''2024-01-01 10:00:05''\<rparr>,
      \<lparr>id' = 1, sender_id = 1, receiver_id = Some 2, content = Some ''hi'', timestamp = ''2024-01-01 10:00:07''\<rparr>,
      \<lparr>id' = 2, sender_id = 2, receiver_id = Some 1, content = Some ''yo'', timestamp = ''2024-01-01 10:00:07''\<rparr>]"
    by (simp add: history_def run_store_def empty_store_def insert_user_def
        insert_message_def MAX_ROWID_def)
  then show ?thesis
    using history_exact_and_ordered
      [of True "[Signup ''alice'', Signup ''bob'',
        Append 1 (Some 2) (Some ''hi'') ''2024-01-01 10:00:07'',
        Append 2 (Some 1) (Some ''yo'') ''2024-01-01 10:00:07'',
        Append 1 (Some 2) (Some ''late'') ''2024-01-01 10:00:05'',
        Append 1 (Some 1) (Some ''note'') ''2024-01-01 10:00:06'']" 1 2]
    by blast
qed

section \<open>The session handlers\<close>

lemma ulp_two_53: "ulp 9007199254740992 = 2"
  by (simp add: ulp.simps [of 9007199254740992] ulp.simps [of 4503599627370496])

lemma to_double_exact:
  assumes "\<bar>k\<bar> \<le> 9007199254740992"
  shows "to_double k = k"
proof (cases "\<bar>k\<bar> < 9007199254740992")
  case True
  then show ?thesis by (simp add: to_double_def)
next
  case False
  with assms have "\<bar>k\<bar> = 9007199254740992" by simp
  then have "k = 9007199254740992 \<or> k = - 9007199254740992" by arith
  then show ?thesis by (auto simp: to_double_def ulp_two_53)
qed

lemma to_double_rounds: "to_double 9007199254740993 = 9007199254740992"
  by (simp add: to_double_def ulp.simps [of 9007199254740993] ulp.simps [of 4503599627370496])

lemma on_message_send:
  assumes "userId (socks s c) = Some u" and "u \<noteq> 0"
  shows "on_message verify s c (JSON (JObject (Some ''message'') tok r ct)) db_now js_now =
     (case insert_message (db s) u r ct db_now of
        Inl e \<Rightarrow> Inl e
      | Inr (d', k) \<Rightarrow>
          (let savedMsg = \<lparr>id' = to_double k, sender_id = u, receiver_id = r, content = ct,
                            timestamp = js_now\<rparr>;
               s1 = s\<lparr>db := d'\<rparr>;
               s2 = (case (case r of None \<Rightarrow> None | Some x \<Rightarrow> clients s1 x) of
                       None \<Rightarrow> s1
                     | Some receiverWs \<Rightarrow>
                         if readyState (socks s1 receiverWs) = OPEN
                         then ws_send s1 receiverWs savedMsg else s1)
           in Inr (ws_send s2 c savedMsg)))"
  using assms by (simp add: on_message_def split: sum.splits)

lemma on_message_send_ok:
  assumes "userId (socks s c) = Some u" and "u \<noteq> 0"
    and "on_message verify s c (JSON (JObject (Some ''message'') tok r ct)) db_now js_now = Inr s'"
  shows "insert_message (db s) u r ct db_now = Inr (db s', seq (db s) + 1)"
    and "clients s' = clients s"
    and "userId (socks s' c') = userId (socks s c')"
    and "readyState (socks s' c') = readyState (socks s c')"
    and "sent (socks s' c') = sent (socks s c') @
           replicate
             ((if (case r of None \<Rightarrow> None | Some x \<Rightarrow> clients s x) = Some c' \<and>
                  readyState (socks s c') = OPEN then 1 else 0) +
              (if c' = c \<and> readyState (socks s c) = OPEN then 1 else 0))
             \<lparr>id' = to_double (seq (db s) + 1), sender_id = u, receiver_id = r, content = ct, timestamp = js_now\<rparr>"
proof -
  from assms(3) obtain d' k where ins: "insert_message (db s) u r ct db_now = Inr (d', k)"
    unfolding on_message_send [OF assms(1,2)] by (auto split: sum.splits)
  note res = insert_message_result [OF ins]
  let ?m = "\<lparr>id' = to_double k, sender_id = u, receiver_id = r, content = ct, timestamp = js_now\<rparr>"
  let ?s1 = "s\<lparr>db := d'\<rparr>"
  let ?s2 = "case (case r of None \<Rightarrow> None | Some x \<Rightarrow> clients ?s1 x) of
               None \<Rightarrow> ?s1
             | Some receiverWs \<Rightarrow>
                 if readyState (socks ?s1 receiverWs) = OPEN
                 then ws_send ?s1 receiverWs ?m else ?s1"
  have s': "s' = ws_send ?s2 c ?m"
    using assms(3) unfolding on_message_send [OF assms(1,2)] ins by (simp add: Let_def)
  show "insert_message (db s) u r ct db_now = Inr (db s', seq (db s) + 1)"
    unfolding s' ins using res(1) by (auto simp: ws_send_def split: option.splits)
  show "clients s' = clients s"
    unfolding s' by (auto simp: ws_send_def split: option.splits)
  show "userId (socks s' c') = userId (socks s c')"
    unfolding s' by (auto simp: ws_send_def split: option.splits)
  show "readyState (socks s' c') = readyState (socks s c')"
    unfolding s' by (auto simp: ws_send_def split: option.splits)
  show "sent (socks s' c') = sent (socks s c') @
           replicate
             ((if (case r of None \<Rightarrow> None | Some x \<Rightarrow> clients s x) = Some c' \<and>
                  readyState (socks s c') = OPEN then 1 else 0) +
              (if c' = c \<and> readyState (socks s c) = OPEN then 1 else 0))
             \<lparr>id' = to_double (seq (db s) + 1), sender_id = u, receiver_id = r, content = ct, timestamp = js_now\<rparr>"
    unfolding s' res(1) [symmetric] by (auto simp: ws_send_def split: option.splits)
qed

lemma on_message_auth_ok:
  assumes "verify t = Some u" and "u \<noteq> 0"
  shows "on_message verify s c (JSON (JObject (Some ''auth'') (Some t) r x)) n m =
     Inr (s\<lparr>socks := (socks s)(c := (socks s c)\<lparr>userId := Some u\<rparr>),
            clients := (clients s)(u \<mapsto> c)\<rparr>)"
  using assms by (simp add: on_message_def Let_def)

lemma on_message_auth_fail:
  assumes "(case tok of None \<Rightarrow> None | Some t \<Rightarrow> verify t) = None"
  shows "on_message verify s c (JSON (JObject (Some ''auth'') tok r x)) n m = Inr (ws_close s c)"
  using assms by (simp add: on_message_def)

lemma on_close_clients:
  assumes "userId (socks s c) = Some u" and "u \<noteq> 0"
  shows "clients (on_close s c) = (clients s)(u := None)"
  using assms by (simp add: on_close_def Let_def)

lemma on_message_ready_state:
  assumes "on_message verify s c d n m = Inr s'"
    and "readyState (socks s' c') \<noteq> readyState (socks s c')"
  shows "c' = c \<and> readyState (socks s' c') = CLOSING \<and>
         (\<exists>tok r x. d = JSON (JObject (Some ''auth'') tok r x) \<and>
            (case tok of None \<Rightarrow> None | Some t \<Rightarrow> verify t) = None)"
proof (cases d)
  case NotJSON
  then show ?thesis using assms by (simp add: on_message_def)
next
  case (JSON j)
  show ?thesis
  proof (cases j)
    case JNull
    then show ?thesis using assms JSON by (simp add: on_message_def)
  next
    case JOther
    then show ?thesis using assms JSON by (simp add: on_message_def)
  next
    case (JObject ty tok r x)
    show ?thesis
    proof (cases "ty = Some ''auth''")
      case True
      show ?thesis
      proof (cases "case tok of None \<Rightarrow> None | Some t \<Rightarrow> verify t")
        case None
        have "s' = ws_close s c"
          using assms(1) on_message_auth_fail [OF None, of s c r x n m] JSON JObject True by simp
        then show ?thesis using assms(2) None JSON JObject True
          by (auto simp: ws_close_def split: if_splits)
      next
        case (Some k)
        then have "readyState (socks s' c') = readyState (socks s c')"
          using assms(1) JSON JObject True
          by (auto simp: on_message_def Let_def split: if_splits)
        then show ?thesis using assms(2) by simp
      qed
    next
      case False
      show ?thesis
      proof (cases "ty = Some ''message'' \<and> truthy (userId (socks s c))")
        case True
        then obtain u where u: "userId (socks s c) = Some u" "u \<noteq> 0"
          by (cases "userId (socks s c)") auto
        have "readyState (socks s' c') = readyState (socks s c')"
          using on_message_send_ok(4) [OF u, of verify tok r x n m s' c'] assms(1) JSON JObject True
          by simp
        then show ?thesis using assms(2) by simp
      next
        case False
        then have "s' = s" using assms(1) JSON JObject \<open>ty \<noteq> Some ''auth''\<close>
          by (auto simp: on_message_def)
        then show ?thesis using assms(2) by simp
      qed
    qed
  qed
qed

lemma on_message_throws:
  "on_message verify s c d n m = Inl e \<longleftrightarrow>
     (d = NotJSON \<and> e = SyntaxError) \<or> (d = JSON JNull \<and> e = TypeError) \<or>
     (\<exists>tok r x. d = JSON (JObject (Some ''message'') tok r x) \<and> truthy (userId (socks s c)) \<and>
        insert_message (db s) (the (userId (socks s c))) r x n = Inl e)"
proof (cases d)
  case NotJSON
  then show ?thesis by (auto simp: on_message_def)
next
  case (JSON j)
  show ?thesis
  proof (cases j)
    case JNull
    then show ?thesis using JSON by (auto simp: on_message_def)
  next
    case JOther
    then show ?thesis using JSON by (auto simp: on_message_def)
  next
    case (JObject ty tok r x)
    then show ?thesis using JSON
      by (auto simp: on_message_def Let_def split: sum.splits option.splits if_splits)
  qed
qed

lemma auth_frame_cases:
  "((case tok of None \<Rightarrow> None | Some t \<Rightarrow> verify t) = None \<longrightarrow>
      on_message verify s c (JSON (JObject (Some ''auth'') tok r x)) n m = Inr (ws_close s c) \<and>
      (readyState (socks s c) = OPEN \<longrightarrow> readyState (socks (ws_close s c) c) = CLOSING)) \<and>
   (verify t = Some u \<and> u \<noteq> 0 \<longrightarrow>
      (\<exists>s'. on_message verify s c (JSON (JObject (Some ''auth'') (Some t) r x)) n m = Inr s' \<and>
            userId (socks s' c) = Some u \<and> truthy (userId (socks s' c)) \<and>
            clients s' u = Some c \<and>
            (\<forall>c'. readyState (socks s' c') = readyState (socks s c')))) \<and>
   (on_message verify s c d n m = Inr s' \<and> readyState (socks s' c') \<noteq> readyState (socks s c') \<longrightarrow>
      c' = c \<and> readyState (socks s' c') = CLOSING \<and>
      (\<exists>tok r x. d = JSON (JObject (Some ''auth'') tok r x) \<and>
         (case tok of None \<Rightarrow> None | Some t \<Rightarrow> verify t) = None))"
proof (intro conjI impI)
  assume "(case tok of None \<Rightarrow> None | Some t \<Rightarrow> verify t) = None"
  then show "on_message verify s c (JSON (JObject (Some ''auth'') tok r x)) n m = Inr (ws_close s c)"
    by (rule on_message_auth_fail)
next
  assume "readyState (socks s c) = OPEN"
  then show "readyState (socks (ws_close s c) c) = CLOSING" by (simp add: ws_close_def)
next
  assume a: "verify t = Some u \<and> u \<noteq> 0"
  then have "on_message verify s c (JSON (JObject (Some ''auth'') (Some t) r x)) n m =
     Inr (s\<lparr>socks := (socks s)(c := (socks s c)\<lparr>userId := Some u\<rparr>),
            clients := (clients s)(u \<mapsto> c)\<rparr>)"
    by (simp add: on_message_auth_ok)
  then show "\<exists>s'. on_message verify s c (JSON (JObject (Some ''auth'') (Some t) r x)) n m = Inr s' \<and>
            userId (socks s' c) = Some u \<and> truthy (userId (socks s' c)) \<and>
            clients s' u = Some c \<and>
            (\<forall>c'. readyState (socks s' c') = readyState (socks s c'))"
    using a by simp
next
  assume a: "on_message verify s c d n m = Inr s' \<and>
             readyState (socks s' c') \<noteq> readyState (socks s c')"
  then have *: "c' = c \<and> readyState (socks s' c') = CLOSING \<and>
         (\<exists>tok r x. d = JSON (JObject (Some ''auth'') tok r x) \<and>
            (case tok of None \<Rightarrow> None | Some t \<Rightarrow> verify t) = None)"
    using on_message_ready_state [of verify s c d n m s' c'] by blast
  from * show "c' = c" by blast
  from * show "readyState (socks s' c') = CLOSING" by blast
  from * show "\<exists>tok r x. d = JSON (JObject (Some ''auth'') tok r x) \<and>
         (case tok of None \<Rightarrow> None | Some t \<Rightarrow> verify t) = None" by blast
qed

subsection \<open>Registry: registration and removal on close\<close>

text \<open>
  C1 fails on the code. Connections 11 and 12 authenticate as user 1, one after the other,
  and the registry maps 1 to 12. When the stale connection 11 closes, its handler deletes
  the entry of user 1 although it names the live connection 12: the lookup of user 1 then
  finds nothing. The handler deletes by user id and never compares the registered
  connection with the closing one.
\<close>

theorem stale_close_evicts_newer_registration:
  "map_sum id (\<lambda>s. clients s 1)
     (run (\<lambda>t. if t = ''tokA'' then Some 1 else if t = ''tokB'' then Some 2 else None)
        (init_server (run_store True [Signup ''alice'', Signup ''bob'']))
        [Connection 11, Message 11 (JSON (JObject (Some ''auth'') (Some ''tokA'') None None)) [] [],
         Connection 12, Message 12 (JSON (JObject (Some ''auth'') (Some ''tokA'') None None)) [] []]) = Inr (Some 12) \<and>
   map_sum id (\<lambda>s. clients s 1)
     (run (\<lambda>t. if t = ''tokA'' then Some 1 else if t = ''tokB'' then Some 2 else None)
        (init_server (run_store True [Signup ''alice'', Signup ''bob'']))
        [Connection 11, Message 11 (JSON (JObject (Some ''auth'') (Some ''tokA'') None None)) [] [],
         Connection 12, Message 12 (JSON (JObject (Some ''auth'') (Some ''tokA'') None None)) [] [],
         Close 11]) = Inr None"
  by (simp add: run_store_def empty_store_def insert_user_def insert_message_def MAX_ROWID_def
        on_message_def on_connection_def on_close_def ws_send_def ws_close_def init_server_def Let_def
        to_double_def)

text \<open>
  The same for any user, connections and start state: once \<open>c1\<close> and then \<open>c2\<close> have
  authenticated as \<open>u\<close>, the close handler of \<open>c1\<close> leaves \<open>u\<close> unregistered.
\<close>

lemma close_after_supersede:
  assumes "verify t1 = Some u" and "verify t2 = Some u" and "u \<noteq> 0"
  shows "\<exists>s1 s2.
     on_message verify s c1 (JSON (JObject (Some ''auth'') (Some t1) r1 x1)) n1 m1 = Inr s1 \<and>
     on_message verify s1 c2 (JSON (JObject (Some ''auth'') (Some t2) r2 x2)) n2 m2 = Inr s2 \<and>
     clients s2 u = Some c2 \<and>
     clients (on_close s2 c1) u = None"
proof -
  let ?s1 = "s\<lparr>socks := (socks s)(c1 := (socks s c1)\<lparr>userId := Some u\<rparr>),
               clients := (clients s)(u \<mapsto> c1)\<rparr>"
  let ?s2 = "?s1\<lparr>socks := (socks ?s1)(c2 := (socks ?s1 c2)\<lparr>userId := Some u\<rparr>),
                 clients := (clients ?s1)(u \<mapsto> c2)\<rparr>"
  have 1: "on_message verify s c1 (JSON (JObject (Some ''auth'') (Some t1) r1 x1)) n1 m1 = Inr ?s1"
    using assms(1,3) by (rule on_message_auth_ok)
  have 2: "on_message verify ?s1 c2 (JSON (JObject (Some ''auth'') (Some t2) r2 x2)) n2 m2 = Inr ?s2"
    using assms(2,3) by (rule on_message_auth_ok)
  have 3: "clients ?s2 u = Some c2" by simp
  have "userId (socks ?s2 c1) = Some u" by simp
  then have "clients (on_close ?s2 c1) = (clients ?s2)(u := None)"
    using assms(3) by (rule on_close_clients)
  then have 4: "clients (on_close ?s2 c1) u = None" by simp
  from 1 2 3 4 show ?thesis by blast
qed

text \<open>
  C3 fails on the code. A session that authenticates as user 1 and then as user 2 is
  registered under both identities; its close handler deletes the entry of the last identity
  only, and the entry of user 1 still names the closed connection 11.
\<close>

theorem reauth_leaves_dangling_entry:
  "map_sum id (\<lambda>s. (clients s 1, clients s 2, readyState (socks s 11)))
     (run (\<lambda>t. if t = ''tokA'' then Some 1 else if t = ''tokB'' then Some 2 else None)
        (init_server (run_store True [Signup ''alice'', Signup ''bob'']))
        [Connection 11, Message 11 (JSON (JObject (Some ''auth'') (Some ''tokA'') None None)) [] [],
         Message 11 (JSON (JObject (Some ''auth'') (Some ''tokB'') None None)) [] [],
         Close 11]) = Inr (Some 11, None, CLOSED)"
  by (simp add: run_store_def empty_store_def insert_user_def insert_message_def MAX_ROWID_def
        on_message_def on_connection_def on_close_def ws_send_def ws_close_def init_server_def Let_def
        to_double_def)

subsection \<open>Authentication frames\<close>

text \<open>
  C9, as the code has it. An authentication frame whose token is missing or fails
  verification makes the handler call \<^verbatim>\<open>ws.close()\<close>: the handler returns with the
  session's socket closing and nothing else changed. A token that verifies to a user
  identity \<open>u\<close> sets the session's \<^verbatim>\<open>userId\<close> to \<open>u\<close> and registers \<open>u\<close> with this
  connection, leaving every socket as open as it was; the guard \<^verbatim>\<open>if (userId)\<close> excludes
  only the identity 0, which is the key of no user at any time of the store. Among the
  frames the handler handles to its end no other closes a transport: when such a frame
  changes the ready state of any socket, the socket is the session's own, it is closing,
  and the frame was an authentication frame whose token did not verify. It is not the only
  fatal path: the handler throws, and nothing catches it, exactly on data that is not JSON,
  on the JSON text \<^verbatim>\<open>null\<close>, and on a send of an authenticated session whose insert the
  store refuses.
\<close>

theorem auth_frame_handling:
  "((case tok of None \<Rightarrow> None | Some t \<Rightarrow> verify t) = None \<longrightarrow>
      on_message verify s c (JSON (JObject (Some ''auth'') tok r x)) n m = Inr (ws_close s c) \<and>
      (readyState (socks s c) = OPEN \<longrightarrow> readyState (socks (ws_close s c) c) = CLOSING)) \<and>
   (verify t = Some u \<and> u \<noteq> 0 \<longrightarrow>
      (\<exists>s'. on_message verify s c (JSON (JObject (Some ''auth'') (Some t) r x)) n m = Inr s' \<and>
            userId (socks s' c) = Some u \<and> truthy (userId (socks s' c)) \<and>
            clients s' u = Some c \<and>
            (\<forall>c'. readyState (socks s' c') = readyState (socks s c')))) \<and>
   (u \<in> uid ` set (users (run_store fk ops)) \<longrightarrow> u \<noteq> 0) \<and>
   (on_message verify s c d n m = Inr s' \<and> readyState (socks s' c') \<noteq> readyState (socks s c') \<longrightarrow>
      c' = c \<and> readyState (socks s' c') = CLOSING \<and>
      (\<exists>tok r x. d = JSON (JObject (Some ''auth'') tok r x) \<and>
         (case tok of None \<Rightarrow> None | Some t \<Rightarrow> verify t) = None)) \<and>
   (on_message verify s c d n m = Inl e \<longleftrightarrow>
      (d = NotJSON \<and> e = SyntaxError) \<or> (d = JSON JNull \<and> e = TypeError) \<or>
      (\<exists>tok r x. d = JSON (JObject (Some ''message'') tok r x) \<and> truthy (userId (socks s c)) \<and>
         insert_message (db s) (the (userId (socks s c))) r x n = Inl e))"
proof -
  note a = auth_frame_cases [where tok = tok and verify = verify and s = s and c = c and r = r
      and x = x and n = n and m = m and t = t and u = u and d = d and s' = s' and c' = c']
  have b: "u \<in> uid ` set (users (run_store fk ops)) \<longrightarrow> u \<noteq> 0"
    using user_key_nonzero [of u fk ops] by blast
  note t = on_message_throws [of verify s c d n m e]
  show ?thesis
    by (intro conjI) (rule a [THEN conjunct1], rule a [THEN conjunct2, THEN conjunct1], rule b,
        rule a [THEN conjunct2, THEN conjunct2], rule t)
qed

theorem auth_frame_handling_witness:
  "on_message (\<lambda>t. if t = ''tokA'' then Some 1 else if t = ''tokB'' then Some 2 else None)
     \<lparr>clients = [1 \<mapsto> 11], db = run_store True [Signup ''alice'', Signup ''bob''],
       socks = (\<lambda>c. if c = 11 then \<lparr>userId = Some 1, readyState = OPEN, sent = []\<rparr>
                   else \<lparr>userId = None, readyState = CLOSED, sent = []\<rparr>)\<rparr> 11
     (JSON (JObject (Some ''auth'') (Some ''forged'') None None)) [] [] =
     Inr (ws_close \<lparr>clients = [1 \<mapsto> 11], db = run_store True [Signup ''alice'', Signup ''bob''],
       socks = (\<lambda>c. if c = 11 then \<lparr>userId = Some 1, readyState = OPEN, sent = []\<rparr>
                   else \<lparr>userId = None, readyState = CLOSED, sent = []\<rparr>)\<rparr> 11) \<and>
   readyState (socks (ws_close \<lparr>clients = [1 \<mapsto> 11], db = run_store True [Signup ''alice'', Signup ''bob''],
       socks = (\<lambda>c. if c = 11 then \<lparr>userId = Some 1, readyState = OPEN, sent = []\<rparr>
                   else \<lparr>userId = None, readyState = CLOSED, sent = []\<rparr>)\<rparr> 11) 11) = CLOSING \<and>
   (\<exists>s'. on_message (\<lambda>t. if t = ''tokA'' then Some 1 else if t = ''tokB'' then Some 2 else None)
     \<lparr>clients = [1 \<mapsto> 11], db = run_store True [Signup ''alice'', Signup ''bob''],
       socks = (\<lambda>c. if c = 11 then \<lparr>userId = Some 1, readyState = OPEN, sent = []\<rparr>
                   else \<lparr>userId = None, readyState = CLOSED, sent = []\<rparr>)\<rparr> 12
     (JSON (JObject (Some ''auth'') (Some ''tokB'') None None)) [] [] = Inr s' \<and>
     userId (socks s' 12) = Some 2 \<and> clients s' 2 = Some 12)"
proof -
  let ?v = "(\<lambda>t. if t = ''tokA'' then Some 1 else if t = ''tokB'' then Some 2 else None)"
  let ?s = "\<lparr>clients = [1 \<mapsto> 11], db = run_store True [Signup ''alice'', Signup ''bob''],
       socks = (\<lambda>c. if c = 11 then \<lparr>userId = Some 1, readyState = OPEN, sent = []\<rparr>
                   else \<lparr>userId = None, readyState = CLOSED, sent = []\<rparr>)\<rparr>"
  have a: "(case Some ''forged'' of None \<Rightarrow> None | Some t \<Rightarrow> ?v t) = None" by simp
  have o: "readyState (socks ?s 11) = OPEN" by simp
  have b: "?v ''tokB'' = Some 2 \<and> (2::int) \<noteq> 0" by simp
  note p = auth_frame_handling [where tok = "Some ''forged''" and verify = ?v and s = ?s
      and c = 11 and r = None and x = None and n = "[]" and m = "[]",
      THEN conjunct1, THEN mp, OF a]
  note q = auth_frame_handling [where verify = ?v and s = ?s and c = 12 and r = None
      and x = None and n = "[]" and m = "[]" and t = "''tokB''" and u = 2,
      THEN conjunct2, THEN conjunct1, THEN mp, OF b]
  from q obtain s' where
    "on_message ?v ?s 12 (JSON (JObject (Some ''auth'') (Some ''tokB'') None None)) [] [] = Inr s'"
    "userId (socks s' 12) = Some 2" "clients s' 2 = Some 12"
    by blast
  then have "\<exists>s'. on_message ?v ?s 12 (JSON (JObject (Some ''auth'') (Some ''tokB'') None None)) [] [] = Inr s' \<and>
     userId (socks s' 12) = Some 2 \<and> clients s' 2 = Some 12"
    by blast
  with p [THEN conjunct1] p [THEN conjunct2, THEN mp, OF o] show ?thesis by blast
qed

text \<open>
  The claim that the rejected authentication frame is the only fatal path of a session fails
  on these runs: a frame that is not JSON, and the JSON text \<^verbatim>\<open>null\<close>, received on
  connection 11, throw out of the handler; the run ends there, and the connection 12 that
  comes next is never served.
\<close>

theorem other_fatal_frames_counterexample:
  "run (\<lambda>t. if t = ''tokA'' then Some 1 else if t = ''tokB'' then Some 2 else None)
     (init_server (run_store True [Signup ''alice'', Signup ''bob'']))
     [Connection 11, Message 11 NotJSON [] [], Connection 12,
      Message 12 (JSON (JObject (Some ''auth'') (Some ''tokA'') None None)) [] []] =
   Inl SyntaxError \<and>
   run (\<lambda>t. if t = ''tokA'' then Some 1 else if t = ''tokB'' then Some 2 else None)
     (init_server (run_store True [Signup ''alice'', Signup ''bob'']))
     [Connection 11, Message 11 (JSON JNull) [] [], Connection 12,
      Message 12 (JSON (JObject (Some ''auth'') (Some ''tokA'') None None)) [] []] =
   Inl TypeError"
  by (simp add: on_message_def on_connection_def)

subsection \<open>Frames that are not JSON, and unknown frame types\<close>

text \<open>
  C10. In every state of a session, transport data that is not JSON makes the handler throw
  (\<^verbatim>\<open>JSON.parse\<close> is not inside a \<^verbatim>\<open>try\<close>), and so does the JSON text \<^verbatim>\<open>null\<close>, whose
  \<^verbatim>\<open>type\<close> cannot be read; whereas any other JSON value without a \<^verbatim>\<open>type\<close> and a JSON
  object whose \<^verbatim>\<open>type\<close> is neither \<^verbatim>\<open>'auth'\<close> nor \<^verbatim>\<open>'message'\<close> leave the state as it
  was and throw nothing.
\<close>

theorem non_json_frame_throws:
  "on_message verify s c NotJSON n m = Inl SyntaxError \<and>
   on_message verify s c (JSON JNull) n m = Inl TypeError \<and>
   on_message verify s c (JSON JOther) n m = Inr s \<and>
   (ty \<noteq> Some ''auth'' \<and> ty \<noteq> Some ''message'' \<longrightarrow>
      on_message verify s c (JSON (JObject ty tok r x)) n m = Inr s)"
  by (simp add: on_message_def)

theorem non_json_frame_throws_witness:
  "on_message (\<lambda>t. if t = ''tokA'' then Some 1 else if t = ''tokB'' then Some 2 else None)
     \<lparr>clients = [1 \<mapsto> 11], db = run_store True [Signup ''alice'', Signup ''bob''],
       socks = (\<lambda>c. if c = 11 then \<lparr>userId = Some 1, readyState = OPEN, sent = []\<rparr>
                   else \<lparr>userId = None, readyState = CLOSED, sent = []\<rparr>)\<rparr> 11 NotJSON [] [] = Inl SyntaxError \<and>
   on_message (\<lambda>t. if t = ''tokA'' then Some 1 else if t = ''tokB'' then Some 2 else None)
     \<lparr>clients = [1 \<mapsto> 11], db = run_store True [Signup ''alice'', Signup ''bob''],
       socks = (\<lambda>c. if c = 11 then \<lparr>userId = Some 1, readyState = OPEN, sent = []\<rparr>
                   else \<lparr>userId = None, readyState = CLOSED, sent = []\<rparr>)\<rparr> 11
     (JSON (JObject (Some ''ping'') None None None)) [] [] =
     Inr \<lparr>clients = [1 \<mapsto> 11], db = run_store True [Signup ''alice'', Signup ''bob''],
       socks = (\<lambda>c. if c = 11 then \<lparr>userId = Some 1, readyState = OPEN, sent = []\<rparr>
                   else \<lparr>userId = None, readyState = CLOSED, sent = []\<rparr>)\<rparr>"
  using non_json_frame_throws
    [where verify = "(\<lambda>t. if t = ''tokA'' then Some 1 else if t = ''tokB'' then Some 2 else None)"
       and s = "\<lparr>clients = [1 \<mapsto> 11], db = run_store True [Signup ''alice'', Signup ''bob''],
       socks = (\<lambda>c. if c = 11 then \<lparr>userId = Some 1, readyState = OPEN, sent = []\<rparr>
                   else \<lparr>userId = None, readyState = CLOSED, sent = []\<rparr>)\<rparr>"
       and c = 11 and n = "[]" and m = "[]" and ty = "Some ''ping''" and tok = None and r = None
       and x = None]
  by simp

subsection \<open>Send frames: persistence and dispatch\<close>

text \<open>
  C2, as the code has it. A send frame of an authenticated session is persisted and echoed
  to the sender whatever its content is - the empty string and a missing content included;
  the handler validates nothing. Only the store refuses a row: with the foreign keys
  enforced, a sender or a non-\<^verbatim>\<open>NULL\<close> receiver that is no key of \<^verbatim>\<open>users\<close> makes the
  insert throw, the exception leaves the handler, and then nothing is persisted and nothing
  is pushed. (The keys are assumed not to be exhausted.)
\<close>

theorem send_persisted_whatever_content:
  assumes "userId (socks s c) = Some u" and "u \<noteq> 0" and "seq (db s) < MAX_ROWID"
  shows "(foreign_keys (db s) \<and>
            (u \<notin> uid ` set (users (db s)) \<or> (\<exists>k. r = Some k \<and> k \<notin> uid ` set (users (db s)))) \<longrightarrow>
          on_message verify s c (JSON (JObject (Some ''message'') tok r ct)) now js_now =
            Inl SQLITE_CONSTRAINT) \<and>
         (\<not> (foreign_keys (db s) \<and>
            (u \<notin> uid ` set (users (db s)) \<or> (\<exists>k. r = Some k \<and> k \<notin> uid ` set (users (db s))))) \<longrightarrow>
          (\<exists>s'. on_message verify s c (JSON (JObject (Some ''message'') tok r ct)) now js_now = Inr s' \<and>
             messages (db s') = messages (db s) @
               [\<lparr>id' = seq (db s) + 1, sender_id = u, receiver_id = r, content = ct, timestamp = now\<rparr>] \<and>
             (readyState (socks s c) = OPEN \<longrightarrow>
                sent (socks s' c) \<noteq> [] \<and>
                last (sent (socks s' c)) =
                  \<lparr>id' = to_double (seq (db s) + 1), sender_id = u, receiver_id = r, content = ct,
                    timestamp = js_now\<rparr>)))"
proof (intro conjI impI)
  assume "foreign_keys (db s) \<and>
            (u \<notin> uid ` set (users (db s)) \<or> (\<exists>k. r = Some k \<and> k \<notin> uid ` set (users (db s))))"
  moreover have "(case r of None \<Rightarrow> False | Some k \<Rightarrow> k \<notin> uid ` set (users (db s))) \<longleftrightarrow>
           (\<exists>k. r = Some k \<and> k \<notin> uid ` set (users (db s)))"
    by (cases r) auto
  ultimately have "insert_message (db s) u r ct now = Inl SQLITE_CONSTRAINT"
    using assms(3) unfolding insert_message_def by simp
  then show "on_message verify s c (JSON (JObject (Some ''message'') tok r ct)) now js_now =
            Inl SQLITE_CONSTRAINT"
    unfolding on_message_send [OF assms(1,2)] by simp
next
  assume a: "\<not> (foreign_keys (db s) \<and>
            (u \<notin> uid ` set (users (db s)) \<or> (\<exists>k. r = Some k \<and> k \<notin> uid ` set (users (db s)))))"
  have c: "(case r of None \<Rightarrow> False | Some k \<Rightarrow> k \<notin> uid ` set (users (db s))) \<longleftrightarrow>
           (\<exists>k. r = Some k \<and> k \<notin> uid ` set (users (db s)))"
    by (cases r) auto
  have "\<exists>d'. insert_message (db s) u r ct now = Inr (d', seq (db s) + 1)"
    using a assms(3) unfolding insert_message_def c by (simp add: Let_def)
  then obtain d' where ins: "insert_message (db s) u r ct now = Inr (d', seq (db s) + 1)" ..
  then obtain s' where
    s': "on_message verify s c (JSON (JObject (Some ''message'') tok r ct)) now js_now = Inr s'"
    unfolding on_message_send [OF assms(1,2)] by (simp add: Let_def)
  note ok = on_message_send_ok [OF assms(1,2) s']
  from ok(1) have "messages (db s') = messages (db s) @
               [\<lparr>id' = seq (db s) + 1, sender_id = u, receiver_id = r, content = ct, timestamp = now\<rparr>]"
    by (rule insert_message_result(3))
  moreover have "readyState (socks s c) = OPEN \<longrightarrow>
                sent (socks s' c) \<noteq> [] \<and>
                last (sent (socks s' c)) =
                  \<lparr>id' = to_double (seq (db s) + 1), sender_id = u, receiver_id = r, content = ct,
                    timestamp = js_now\<rparr>"
    by (simp add: ok(5) [of c])
  ultimately show "\<exists>s'. on_message verify s c (JSON (JObject (Some ''message'') tok r ct)) now js_now = Inr s' \<and>
             messages (db s') = messages (db s) @
               [\<lparr>id' = seq (db s) + 1, sender_id = u, receiver_id = r, content = ct, timestamp = now\<rparr>] \<and>
             (readyState (socks s c) = OPEN \<longrightarrow>
                sent (socks s' c) \<noteq> [] \<and>
                last (sent (socks s' c)) =
                  \<lparr>id' = to_double (seq (db s) + 1), sender_id = u, receiver_id = r, content = ct,
                    timestamp = js_now\<rparr>)"
    using s' by blast
qed

theorem send_persisted_whatever_content_witness:
  "userId (socks \<lparr>clients = [1 \<mapsto> 11], db = run_store True [Signup ''alice'', Signup ''bob''],
       socks = (\<lambda>c. if c = 11 then \<lparr>userId = Some 1, readyState = OPEN, sent = []\<rparr>
                   else \<lparr>userId = None, readyState = CLOSED, sent = []\<rparr>)\<rparr> 11) = Some 1 \<and>
   on_message (\<lambda>t. if t = ''tokA'' then Some 1 else if t = ''tokB'' then Some 2 else None)
     \<lparr>clients = [1 \<mapsto> 11], db = run_store True [Signup ''alice'', Signup ''bob''],
       socks = (\<lambda>c. if c = 11 then \<lparr>userId = Some 1, readyState = OPEN, sent = []\<rparr>
                   else \<lparr>userId = None, readyState = CLOSED, sent = []\<rparr>)\<rparr> 11
     (JSON (JObject (Some ''message'') None (Some 9) (Some ''hi''))) ''2024-01-01 10:00:07'' ''2024-01-01T10:00:07.250Z'' = Inl SQLITE_CONSTRAINT \<and>
   (\<exists>s'. on_message (\<lambda>t. if t = ''tokA'' then Some 1 else if t = ''tokB'' then Some 2 else None)
     \<lparr>clients = [1 \<mapsto> 11], db = run_store True [Signup ''alice'', Signup ''bob''],
       socks = (\<lambda>c. if c = 11 then \<lparr>userId = Some 1, readyState = OPEN, sent = []\<rparr>
                   else \<lparr>userId = None, readyState = CLOSED, sent = []\<rparr>)\<rparr> 11
     (JSON (JObject (Some ''message'') None (Some 2) (Some []))) ''2024-01-01 10:00:07'' ''2024-01-01T10:00:07.250Z'' = Inr s' \<and>
     messages (db s') = [\<lparr>id' = 1, sender_id = 1, receiver_id = Some 2, content = Some [], timestamp = ''2024-01-01 10:00:07''\<rparr>] \<and>
     last (sent (socks s' 11)) = \<lparr>id' = 1, sender_id = 1, receiver_id = Some 2, content = Some [], timestamp = ''2024-01-01T10:00:07.250Z''\<rparr>)"
proof -
  let ?v = "(\<lambda>t. if t = ''tokA'' then Some 1 else if t = ''tokB'' then Some 2 else None)"
  let ?s = "\<lparr>clients = [1 \<mapsto> 11], db = run_store True [Signup ''alice'', Signup ''bob''],
       socks = (\<lambda>c. if c = 11 then \<lparr>userId = Some 1, readyState = OPEN, sent = []\<rparr>
                   else \<lparr>userId = None, readyState = CLOSED, sent = []\<rparr>)\<rparr>"
  have u: "userId (socks ?s 11) = Some 1" and z: "(1::int) \<noteq> 0" by simp_all
  have q: "seq (db ?s) < MAX_ROWID"
    by (simp add: run_store_def empty_store_def insert_user_def MAX_ROWID_def)
  have k: "uid ` set (users (db ?s)) = {1, 2}"
    by (simp add: run_store_def empty_store_def insert_user_def MAX_ROWID_def insert_commute)
  have f: "foreign_keys (db ?s)" and e: "messages (db ?s) = []" and n: "seq (db ?s) = 0"
    by (simp_all add: run_store_def empty_store_def insert_user_def MAX_ROWID_def)
  have o: "readyState (socks ?s 11) = OPEN" by simp
  from send_persisted_whatever_content [OF u z q, of "Some 9" ?v None "Some ''hi''" "''2024-01-01 10:00:07''" "''2024-01-01T10:00:07.250Z''"]
  have 1: "on_message ?v ?s 11 (JSON (JObject (Some ''message'') None (Some 9) (Some ''hi''))) ''2024-01-01 10:00:07'' ''2024-01-01T10:00:07.250Z'' = Inl SQLITE_CONSTRAINT"
    unfolding k using f by simp
  from send_persisted_whatever_content [OF u z q, of "Some 2" ?v None "Some []" "''2024-01-01 10:00:07''" "''2024-01-01T10:00:07.250Z''"]
  have 2: "\<exists>s'. on_message ?v ?s 11 (JSON (JObject (Some ''message'') None (Some 2) (Some []))) ''2024-01-01 10:00:07'' ''2024-01-01T10:00:07.250Z'' = Inr s' \<and>
     messages (db s') = [\<lparr>id' = 1, sender_id = 1, receiver_id = Some 2, content = Some [], timestamp = ''2024-01-01 10:00:07''\<rparr>] \<and>
     last (sent (socks s' 11)) = \<lparr>id' = 1, sender_id = 1, receiver_id = Some 2, content = Some [], timestamp = ''2024-01-01T10:00:07.250Z''\<rparr>"
    unfolding k e n using o by (auto simp: to_double_def)
  from u 1 2 show ?thesis by blast
qed

text \<open>
  The claim that a send with empty content is neither persisted nor pushed fails
  on this run: user 1 sends the empty string to the existing user 2, with the foreign keys
  enforced; the row is inserted and the frame is echoed to the sender.
\<close>

theorem empty_content_counterexample:
  "map_sum id (\<lambda>s. (messages (db s), sent (socks s 11)))
     (run (\<lambda>t. if t = ''tokA'' then Some 1 else if t = ''tokB'' then Some 2 else None)
        (init_server (run_store True [Signup ''alice'', Signup ''bob'']))
        [Connection 11, Message 11 (JSON (JObject (Some ''auth'') (Some ''tokA'') None None)) [] [],
         Message 11 (JSON (JObject (Some ''message'') None (Some 2) (Some [])))
           ''2024-01-01 10:00:07'' ''2024-01-01T10:00:07.250Z'']) =
   Inr ([\<lparr>id' = 1, sender_id = 1, receiver_id = Some 2, content = Some [], timestamp = ''2024-01-01 10:00:07''\<rparr>],
        [\<lparr>id' = 1, sender_id = 1, receiver_id = Some 2, content = Some [], timestamp = ''2024-01-01T10:00:07.250Z''\<rparr>])"
  by (simp add: run_store_def empty_store_def insert_user_def insert_message_def MAX_ROWID_def
        on_message_def on_connection_def on_close_def ws_send_def ws_close_def init_server_def Let_def
        to_double_def)

text \<open>
  C4, as the code has it. When a send succeeds, the row appended to \<^verbatim>\<open>messages\<close> carries the
  key the store assigned and the database clock's timestamp. Every frame pushed for it, to
  any connection, carries the row's sender, receiver and content, and as identity
  \<^verbatim>\<open>info.lastInsertRowid\<close>, the key as a JavaScript number: the key itself while it is at
  most \<open>2^53\<close>, the nearest double beyond. Its timestamp is the handler's own reading of the
  clock (\<^verbatim>\<open>new Date().toISOString()\<close>), not the row's.
\<close>

theorem pushed_timestamp_is_handler_clock:
  assumes "userId (socks s c) = Some u" and "u \<noteq> 0"
    and "on_message verify s c (JSON (JObject (Some ''message'') tok r ct)) db_now js_now = Inr s'"
  shows "messages (db s') = messages (db s) @
           [\<lparr>id' = seq (db s) + 1, sender_id = u, receiver_id = r, content = ct,
             timestamp = db_now\<rparr>] \<and>
         (\<exists>n. sent (socks s' c') = sent (socks s c') @
            replicate n \<lparr>id' = to_double (seq (db s) + 1), sender_id = u, receiver_id = r,
                          content = ct, timestamp = js_now\<rparr>) \<and>
         (\<bar>seq (db s) + 1\<bar> \<le> 9007199254740992 \<longrightarrow> to_double (seq (db s) + 1) = seq (db s) + 1)"
proof -
  note ok = on_message_send_ok [OF assms]
  from ok(1) have "messages (db s') = messages (db s) @
           [\<lparr>id' = seq (db s) + 1, sender_id = u, receiver_id = r, content = ct,
             timestamp = db_now\<rparr>]"
    by (rule insert_message_result(3))
  moreover from ok(5) [of c'] have "\<exists>n. sent (socks s' c') = sent (socks s c') @
            replicate n \<lparr>id' = to_double (seq (db s) + 1), sender_id = u, receiver_id = r,
                          content = ct, timestamp = js_now\<rparr>"
    by blast
  moreover have "\<bar>seq (db s) + 1\<bar> \<le> 9007199254740992 \<longrightarrow>
      to_double (seq (db s) + 1) = seq (db s) + 1"
    by (simp add: to_double_exact)
  ultimately show ?thesis by blast
qed

theorem pushed_timestamp_is_handler_clock_witness:
  "\<exists>s' n. on_message (\<lambda>t. if t = ''tokA'' then Some 1 else if t = ''tokB'' then Some 2 else None)
     \<lparr>clients = [1 \<mapsto> 11], db = run_store True [Signup ''alice'', Signup ''bob''],
       socks = (\<lambda>c. if c = 11 then \<lparr>userId = Some 1, readyState = OPEN, sent = []\<rparr>
                   else \<lparr>userId = None, readyState = CLOSED, sent = []\<rparr>)\<rparr> 11
     (JSON (JObject (Some ''message'') None (Some 2) (Some ''hi''))) ''2024-01-01 10:00:07'' ''2024-01-01T10:00:07.250Z'' = Inr s' \<and>
     messages (db s') = [\<lparr>id' = 1, sender_id = 1, receiver_id = Some 2, content = Some ''hi'', timestamp = ''2024-01-01 10:00:07''\<rparr>] \<and>
     sent (socks s' 11) = replicate n \<lparr>id' = 1, sender_id = 1, receiver_id = Some 2, content = Some ''hi'', timestamp = ''2024-01-01T10:00:07.250Z''\<rparr>"
proof -
  let ?v = "(\<lambda>t. if t = ''tokA'' then Some 1 else if t = ''tokB'' then Some 2 else None)"
  let ?s = "\<lparr>clients = [1 \<mapsto> 11], db = run_store True [Signup ''alice'', Signup ''bob''],
       socks = (\<lambda>c. if c = 11 then \<lparr>userId = Some 1, readyState = OPEN, sent = []\<rparr>
                   else \<lparr>userId = None, readyState = CLOSED, sent = []\<rparr>)\<rparr>"
  have u: "userId (socks ?s 11) = Some 1" and z: "(1::int) \<noteq> 0" by simp_all
  have e: "messages (db ?s) = []" and n: "seq (db ?s) = 0"
    by (simp_all add: run_store_def empty_store_def insert_user_def MAX_ROWID_def)
  obtain s' where r: "on_message ?v ?s 11 (JSON (JObject (Some ''message'') None (Some 2) (Some ''hi''))) ''2024-01-01 10:00:07'' ''2024-01-01T10:00:07.250Z'' = Inr s'"
    by (simp add: run_store_def empty_store_def insert_user_def insert_message_def MAX_ROWID_def
        on_message_def on_connection_def on_close_def ws_send_def ws_close_def init_server_def Let_def
        to_double_def)
  from pushed_timestamp_is_handler_clock [OF u z r, of 11]
  show ?thesis unfolding e n using r by (auto simp: to_double_def)
qed

text \<open>
  The claim that the pushed timestamp equals the timestamp of the persisted row fails on
  this run: the row holds the text \<^verbatim>\<open>CURRENT_TIMESTAMP\<close> gave, the frame the ISO-8601 text
  of the handler's clock.
\<close>

theorem pushed_timestamp_counterexample:
  "map_sum id (\<lambda>s. (map timestamp (messages (db s)), map timestamp (sent (socks s 11))))
     (run (\<lambda>t. if t = ''tokA'' then Some 1 else if t = ''tokB'' then Some 2 else None)
        (init_server (run_store True [Signup ''alice'', Signup ''bob'']))
        [Connection 11, Message 11 (JSON (JObject (Some ''auth'') (Some ''tokA'') None None)) [] [],
         Message 11 (JSON (JObject (Some ''message'') None (Some 2) (Some ''hi'')))
           ''2024-01-01 10:00:07'' ''2024-01-01T10:00:07.250Z'']) =
   Inr ([''2024-01-01 10:00:07''], [''2024-01-01T10:00:07.250Z''])"
  by (simp add: run_store_def empty_store_def insert_user_def insert_message_def MAX_ROWID_def
        on_message_def on_connection_def on_close_def ws_send_def ws_close_def init_server_def Let_def
        to_double_def)

text \<open>
  C6, as the code has it. When a send succeeds, the handler pushes the message once to the
  connection registered under the receiver's id, if there is one and its transport is open,
  and once to the submitting connection itself, if its transport is open - whether or not
  that connection is the one registered under the sender's id. No other connection is
  written to, and a connection that is both receives the message twice.
\<close>

theorem dispatch_targets:
  assumes "userId (socks s c) = Some u" and "u \<noteq> 0"
    and "on_message verify s c (JSON (JObject (Some ''message'') tok r ct)) db_now js_now = Inr s'"
  shows "sent (socks s' c') = sent (socks s c') @
           replicate
             ((if (case r of None \<Rightarrow> None | Some x \<Rightarrow> clients s x) = Some c' \<and>
                  readyState (socks s c') = OPEN then 1 else 0) +
              (if c' = c \<and> readyState (socks s c) = OPEN then 1 else 0))
             \<lparr>id' = to_double (seq (db s) + 1), sender_id = u, receiver_id = r, content = ct,
               timestamp = js_now\<rparr>"
  using assms by (rule on_message_send_ok(5))

theorem dispatch_targets_witness:
  "\<exists>s'. on_message (\<lambda>t. if t = ''tokA'' then Some 1 else if t = ''tokB'' then Some 2 else None)
     \<lparr>clients = [1 \<mapsto> 12, 2 \<mapsto> 13], db = run_store True [Signup ''alice'', Signup ''bob''],
       socks = (\<lambda>c. if c = 11 \<or> c = 12 then \<lparr>userId = Some 1, readyState = OPEN, sent = []\<rparr>
                   else if c = 13 then \<lparr>userId = Some 2, readyState = OPEN, sent = []\<rparr>
                   else \<lparr>userId = None, readyState = CLOSED, sent = []\<rparr>)\<rparr> 11
     (JSON (JObject (Some ''message'') None (Some 2) (Some ''hi''))) ''2024-01-01 10:00:07'' ''2024-01-01T10:00:07.250Z'' = Inr s' \<and>
     sent (socks s' 11) = [\<lparr>id' = 1, sender_id = 1, receiver_id = Some 2, content = Some ''hi'', timestamp = ''2024-01-01T10:00:07.250Z''\<rparr>] \<and>
     sent (socks s' 12) = [] \<and>
     sent (socks s' 13) = [\<lparr>id' = 1, sender_id = 1, receiver_id = Some 2, content = Some ''hi'', timestamp = ''2024-01-01T10:00:07.250Z''\<rparr>]"
proof -
  let ?v = "(\<lambda>t. if t = ''tokA'' then Some 1 else if t = ''tokB'' then Some 2 else None)"
  let ?s = "\<lparr>clients = [1 \<mapsto> 12, 2 \<mapsto> 13], db = run_store True [Signup ''alice'', Signup ''bob''],
       socks = (\<lambda>c. if c = 11 \<or> c = 12 then \<lparr>userId = Some 1, readyState = OPEN, sent = []\<rparr>
                   else if c = 13 then \<lparr>userId = Some 2, readyState = OPEN, sent = []\<rparr>
                   else \<lparr>userId = None, readyState = CLOSED, sent = []\<rparr>)\<rparr>"
  have u: "userId (socks ?s 11) = Some 1" and z: "(1::int) \<noteq> 0" by simp_all
  have n: "seq (db ?s) = 0"
    by (simp add: run_store_def empty_store_def insert_user_def MAX_ROWID_def)
  obtain s' where r: "on_message ?v ?s 11 (JSON (JObject (Some ''message'') None (Some 2) (Some ''hi''))) ''2024-01-01 10:00:07'' ''2024-01-01T10:00:07.250Z'' = Inr s'"
    by (simp add: run_store_def empty_store_def insert_user_def insert_message_def MAX_ROWID_def
        on_message_def on_connection_def on_close_def ws_send_def ws_close_def init_server_def Let_def
        to_double_def)
  note t = dispatch_targets [OF u z r]
  have "sent (socks s' 11) = [\<lparr>id' = 1, sender_id = 1, receiver_id = Some 2, content = Some ''hi'', timestamp = ''2024-01-01T10:00:07.250Z''\<rparr>]"
    unfolding t [of 11] n by (simp add: to_double_def)
  moreover have "sent (socks s' 12) = []"
    unfolding t [of 12] n by (simp add: to_double_def)
  moreover have "sent (socks s' 13) = [\<lparr>id' = 1, sender_id = 1, receiver_id = Some 2, content = Some ''hi'', timestamp = ''2024-01-01T10:00:07.250Z''\<rparr>]"
    unfolding t [of 13] n by (simp add: to_double_def)
  ultimately show ?thesis using r by blast
qed

text \<open>
  The claim that the sender's connection is pushed to only if it is still registered under
  the sender's id fails on this run: connection 12 has superseded connection 11 as the
  connection of user 1, and a send submitted on 11 is still echoed to 11.
\<close>

theorem echo_to_superseded_counterexample:
  "map_sum id (\<lambda>s. (clients s 1, sent (socks s 11)))
     (run (\<lambda>t. if t = ''tokA'' then Some 1 else if t = ''tokB'' then Some 2 else None)
        (init_server (run_store True [Signup ''alice'', Signup ''bob'']))
        [Connection 11, Message 11 (JSON (JObject (Some ''auth'') (Some ''tokA'') None None)) [] [],
         Connection 12, Message 12 (JSON (JObject (Some ''auth'') (Some ''tokA'') None None)) [] [],
         Message 11 (JSON (JObject (Some ''message'') None (Some 2) (Some ''hi'')))
           ''2024-01-01 10:00:07'' ''2024-01-01T10:00:07.250Z'']) =
   Inr (Some 12, [\<lparr>id' = 1, sender_id = 1, receiver_id = Some 2, content = Some ''hi'', timestamp = ''2024-01-01T10:00:07.250Z''\<rparr>])"
  by (simp add: run_store_def empty_store_def insert_user_def insert_message_def MAX_ROWID_def
        on_message_def on_connection_def on_close_def ws_send_def ws_close_def init_server_def Let_def
        to_double_def)

end
